theory Spec2Isabelle
  imports Complex_Main "HOL-Library.Char_ord" "HOL-Library.List_Lexorder"
begin

section \<open>Topic router: \<open>MqttClient::topicMatches\<close>\<close>

text \<open>
  \<open>std::getline(ss, part, delim)\<close> on the rest of a stream: it fails (the loop ends) when
  nothing is left; otherwise it extracts the characters up to the next delimiter or the end
  of input and consumes the delimiter. The result is the extracted part and the rest of the
  stream.
\<close>

definition getline :: "string \<Rightarrow> char \<Rightarrow> (string \<times> string) option" where
  "getline ss delim =
     (if ss = [] then None
      else Some (takeWhile (\<lambda>c. c \<noteq> delim) ss, drop 1 (dropWhile (\<lambda>c. c \<noteq> delim) ss)))"

text \<open>
  The \<open>split\<close> lambda of \<open>topicMatches\<close> (the same loop is in
  \<open>CollectorService::parseTopic\<close>):
  \<^verbatim>\<open>while (std::getline(ss, part, '/')) parts.push_back(part);\<close>
\<close>

function split :: "string \<Rightarrow> string list" where
  "split str = (case getline str (CHR ''/'') of
                  None \<Rightarrow> []
                | Some (part, rest) \<Rightarrow> part # split rest)"
  by pat_completeness auto
termination
proof (relation "measure length")
  show "wf (measure length)"
    by simp
next
  fix str :: string and x part rest
  assume "getline str (CHR ''/'') = Some x" and "(part, rest) = x"
  then have "str \<noteq> []" and "rest = drop 1 (dropWhile (\<lambda>c. c \<noteq> CHR ''/'') str)"
    by (auto simp: getline_def split: if_splits)
  then have "length rest < length str"
    using length_dropWhile_le [of "\<lambda>c. c \<noteq> CHR ''/''" str] by (cases str) auto
  then show "(rest, str) \<in> measure length"
    by simp
qed

declare split.simps [simp del]

text \<open>
  The level loop of \<open>topicMatches\<close>, from index \<open>i\<close>:
  \<^verbatim>\<open>for (size_t i = 0; i < pattern_parts.size(); ++i)\<close>.
  A level \<open>+\<close> of the pattern matches any topic level, any other level must be equal.
  \<open>topicMatches\<close> enters the loop only when the topic has at least as many levels as the
  pattern (without its final \<open>#\<close>), so \<open>topic_parts[i]\<close> is always in range.
\<close>

function match_levels :: "nat \<Rightarrow> string list \<Rightarrow> string list \<Rightarrow> bool" where
  "match_levels i pattern_parts topic_parts =
     (if i < length pattern_parts then
        (if pattern_parts ! i = ''+'' then match_levels (i + 1) pattern_parts topic_parts
         else if pattern_parts ! i \<noteq> topic_parts ! i then False
         else match_levels (i + 1) pattern_parts topic_parts)
      else True)"
  by pat_completeness auto
termination
  by (relation "measure (\<lambda>(i, pattern_parts, topic_parts). length pattern_parts - i)") auto

declare match_levels.simps [simp del]

definition topicMatches :: "string \<Rightarrow> string \<Rightarrow> bool" where
  "topicMatches topic pattern =
     (let topic_parts = split topic;
          pattern_parts = split pattern;
          has_multilevel = (pattern_parts \<noteq> [] \<and> last pattern_parts = ''#'')
      in if has_multilevel then
           (if length topic_parts < length pattern_parts - 1 then False
            else match_levels 0 (butlast pattern_parts) topic_parts)
         else
           (if length topic_parts \<noteq> length pattern_parts then False
            else match_levels 0 pattern_parts topic_parts))"

text \<open>
  The levels of a topic as the claims count them, written from their words and not from the
  code: the strings between the separators \<open>/\<close>, so that a topic with \<open>n\<close> separators
  has \<open>n + 1\<close> levels, empty ones included (\<open>a/\<close> has the levels \<open>a\<close> and the empty
  string). \<open>counted_levels\<close> are the levels without a final empty one, and
  \<open>prefix_matches pre ls\<close> says that the levels \<open>ls\<close> start with the pattern levels
  \<open>pre\<close>, a pattern level \<open>+\<close> standing for any level.
\<close>

fun topic_levels :: "string \<Rightarrow> string list" where
  "topic_levels [] = [[]]"
| "topic_levels (c # cs) =
     (if c = CHR ''/'' then [] # topic_levels cs
      else (case topic_levels cs of
              l # ls \<Rightarrow> (c # l) # ls
            | [] \<Rightarrow> [[c]]))"

definition counted_levels :: "string \<Rightarrow> string list" where
  "counted_levels topic =
     (if last (topic_levels topic) = [] then butlast (topic_levels topic)
      else topic_levels topic)"


section \<open>Device record: \<open>UpsData\<close>\<close>

text \<open>
  \<open>std::stod\<close> and \<open>std::stoi\<close> belong to the C++ library, not to the program: the
  model takes them as a parameter. \<open>None\<close> stands for a thrown exception
  (\<open>std::invalid_argument\<close>, \<open>std::out_of_range\<close>), \<open>Some (value, pos)\<close> for a
  conversion that consumed \<open>pos\<close> characters. A \<open>double\<close> is modelled by the real number
  it denotes and an \<open>int\<close> by its value; a \<open>time_point\<close> is the tick count of
  \<open>std::chrono::system_clock\<close>.
\<close>

record cxx_lib =
  stod :: "string \<Rightarrow> (real \<times> nat) option"
  stoi :: "string \<Rightarrow> (int \<times> nat) option"

type_synonym time_point = int

definition parseDouble :: "cxx_lib \<Rightarrow> string \<Rightarrow> real option" where
  "parseDouble L str =
     (case stod L str of
        None \<Rightarrow> None
      | Some (v, pos) \<Rightarrow> if pos > 0 then Some v else None)"

definition parseInt :: "cxx_lib \<Rightarrow> string \<Rightarrow> int option" where
  "parseInt L str =
     (case stoi L str of
        None \<Rightarrow> None
      | Some (v, pos) \<Rightarrow> if pos > 0 then Some v else None)"

text \<open>\<open>s.find(pat)\<close>: the first position at which \<open>pat\<close> occurs, \<open>None\<close> for \<open>npos\<close>.\<close>

definition string_find :: "string \<Rightarrow> string \<Rightarrow> nat option" where
  "string_find s pat =
     List.find (\<lambda>i. take (length pat) (drop i s) = pat) [0 ..< Suc (length s)]"

record UpsData =
  device_id :: string
  timestamp :: time_point
  battery_charge :: "real option"
  battery_voltage :: "real option"
  battery_runtime :: "int option"
  battery_nominal_voltage :: "real option"
  battery_low_threshold :: "real option"
  battery_warning_threshold :: "real option"
  battery_type :: "string option"
  battery_mfr_date :: "string option"
  input_voltage :: "real option"
  input_nominal_voltage :: "int option"
  high_voltage_transfer :: "real option"
  low_voltage_transfer :: "real option"
  input_sensitivity :: "string option"
  last_transfer_reason :: "string option"
  load_percentage :: "real option"
  load_watts :: "real option"
  ups_status :: "string option"
  power_failure :: "bool option"
  ups_nominal_power :: "real option"
  beeper_status :: "string option"
  self_test_result :: "string option"
  firmware_version :: "string option"
  delay_shutdown :: "int option"
  timer_reboot :: "int option"
  timer_shutdown :: "int option"
  driver_name :: "string option"
  driver_version :: "string option"
  driver_state :: "string option"
  temperature :: "real option"
  output_voltage :: "real option"
  output_nominal_voltage :: "int option"

text \<open>The value-initialised \<open>UpsData()\<close>: empty identifier, epoch, every field absent.\<close>

definition UpsData_init :: UpsData where
  "UpsData_init =
     \<lparr> device_id = [], timestamp = 0,
       battery_charge = None, battery_voltage = None, battery_runtime = None,
       battery_nominal_voltage = None, battery_low_threshold = None,
       battery_warning_threshold = None, battery_type = None, battery_mfr_date = None,
       input_voltage = None, input_nominal_voltage = None, high_voltage_transfer = None,
       low_voltage_transfer = None, input_sensitivity = None, last_transfer_reason = None,
       load_percentage = None, load_watts = None, ups_status = None, power_failure = None,
       ups_nominal_power = None, beeper_status = None, self_test_result = None,
       firmware_version = None, delay_shutdown = None, timer_reboot = None,
       timer_shutdown = None, driver_name = None, driver_version = None, driver_state = None,
       temperature = None, output_voltage = None, output_nominal_voltage = None \<rparr>"

text \<open>
  \<open>UpsData::updateFieldFromMqtt\<close>; \<open>now\<close> is the value that
  \<open>std::chrono::system_clock::now()\<close> returns in the call.
\<close>

definition updateFieldFromMqtt ::
  "cxx_lib \<Rightarrow> time_point \<Rightarrow> string \<Rightarrow> string \<Rightarrow> UpsData \<Rightarrow> UpsData" where
  "updateFieldFromMqtt L now sensor_name val d0 =
     (let d = d0\<lparr>timestamp := now\<rparr> in
      if sensor_name = ''battery_charge'' then
        d\<lparr>battery_charge := parseDouble L val\<rparr>
      else if sensor_name = ''battery_voltage'' then
        d\<lparr>battery_voltage := parseDouble L val\<rparr>
      else if sensor_name = ''battery_runtime'' then
        d\<lparr>battery_runtime := parseInt L val\<rparr>
      else if sensor_name = ''battery_nominal_voltage'' \<or> sensor_name = ''battery_voltage_nominal'' then
        d\<lparr>battery_nominal_voltage := parseDouble L val\<rparr>
      else if sensor_name = ''battery_low_charge_threshold'' \<or> sensor_name = ''battery_charge_low'' then
        d\<lparr>battery_low_threshold := parseDouble L val\<rparr>
      else if sensor_name = ''battery_warning_charge_threshold'' \<or> sensor_name = ''battery_charge_warning'' then
        d\<lparr>battery_warning_threshold := parseDouble L val\<rparr>
      else if sensor_name = ''input_voltage'' then
        d\<lparr>input_voltage := parseDouble L val\<rparr>
      else if sensor_name = ''input_nominal_voltage'' \<or> sensor_name = ''input_voltage_nominal'' then
        d\<lparr>input_nominal_voltage := parseInt L val\<rparr>
      else if sensor_name = ''high_voltage_transfer'' \<or> sensor_name = ''input_transfer_high'' then
        d\<lparr>high_voltage_transfer := parseDouble L val\<rparr>
      else if sensor_name = ''low_voltage_transfer'' \<or> sensor_name = ''input_transfer_low'' then
        d\<lparr>low_voltage_transfer := parseDouble L val\<rparr>
      else if sensor_name = ''load_percentage'' \<or> sensor_name = ''load_percent'' then
        (let d1 = d\<lparr>load_percentage := parseDouble L val\<rparr> in
         case load_percentage d1 of
           Some p \<Rightarrow> d1\<lparr>load_watts := Some ((p / 100) * 600)\<rparr>
         | None \<Rightarrow> d1)
      else if sensor_name = ''load_watts'' then
        d\<lparr>load_watts := parseDouble L val\<rparr>
      else if sensor_name = ''ups_status'' \<or> sensor_name = ''status'' then
        d\<lparr>ups_status := Some val, power_failure := Some (string_find val ''OB'' \<noteq> None)\<rparr>
      else if sensor_name = ''power_failure'' then
        d\<lparr>power_failure := Some (val = ''1'' \<or> val = ''true'' \<or> val = ''on'')\<rparr>
      else if sensor_name = ''ups_nominal_power'' then
        d\<lparr>ups_nominal_power := parseDouble L val\<rparr>
      else if sensor_name = ''temperature'' then
        d\<lparr>temperature := parseDouble L val\<rparr>
      else if sensor_name = ''output_voltage'' then
        d\<lparr>output_voltage := parseDouble L val\<rparr>
      else if sensor_name = ''output_nominal_voltage'' then
        d\<lparr>output_nominal_voltage := parseInt L val\<rparr>
      else if sensor_name = ''beeper_status'' then
        d\<lparr>beeper_status := Some val\<rparr>
      else if sensor_name = ''self_test_result'' then
        d\<lparr>self_test_result := Some val\<rparr>
      else if sensor_name = ''firmware_version'' then
        d\<lparr>firmware_version := Some val\<rparr>
      else if sensor_name = ''driver_name'' then
        d\<lparr>driver_name := Some val\<rparr>
      else if sensor_name = ''driver_version'' then
        d\<lparr>driver_version := Some val\<rparr>
      else if sensor_name = ''driver_state'' then
        d\<lparr>driver_state := Some val\<rparr>
      else if sensor_name = ''input_sensitivity'' then
        d\<lparr>input_sensitivity := Some val\<rparr>
      else if sensor_name = ''last_transfer_reason'' \<or> sensor_name = ''input_transfer_reason'' then
        d\<lparr>last_transfer_reason := Some val\<rparr>
      else d)"

definition isValid :: "UpsData \<Rightarrow> bool" where
  "isValid d \<longleftrightarrow> battery_charge d \<noteq> None \<and> ups_status d \<noteq> None"

text \<open>
  The sensor names that \<open>updateFieldFromMqtt\<close> tests for, in the order of its branches.
\<close>

definition recognized_sensor_names :: "string list" where
  "recognized_sensor_names =
     [''battery_charge'', ''battery_voltage'', ''battery_runtime'',
      ''battery_nominal_voltage'', ''battery_voltage_nominal'',
      ''battery_low_charge_threshold'', ''battery_charge_low'',
      ''battery_warning_charge_threshold'', ''battery_charge_warning'',
      ''input_voltage'', ''input_nominal_voltage'', ''input_voltage_nominal'',
      ''high_voltage_transfer'', ''input_transfer_high'',
      ''low_voltage_transfer'', ''input_transfer_low'',
      ''load_percentage'', ''load_percent'', ''load_watts'',
      ''ups_status'', ''status'', ''power_failure'', ''ups_nominal_power'',
      ''temperature'', ''output_voltage'', ''output_nominal_voltage'',
      ''beeper_status'', ''self_test_result'', ''firmware_version'',
      ''driver_name'', ''driver_version'', ''driver_state'', ''input_sensitivity'',
      ''last_transfer_reason'', ''input_transfer_reason'']"

text \<open>
  A library instance for the concrete evaluations below. On a string of one to nine decimal
  digits it converts as \<open>std::stod\<close> and \<open>std::stoi\<close> do (the value is an exact
  \<open>double\<close> and fits an \<open>int\<close>, every character is consumed); every other string is
  taken as not convertible, which is what both functions do with a string that does not
  start with a number, such as \<open>abc\<close>. The evaluations use no other strings.
\<close>

definition is_digit :: "char \<Rightarrow> bool" where
  "is_digit c \<longleftrightarrow> CHR ''0'' \<le> c \<and> c \<le> CHR ''9''"

definition digits_value :: "string \<Rightarrow> nat" where
  "digits_value s = foldl (\<lambda>a c. 10 * a + (of_char c - 48)) 0 s"

definition digit_string :: "string \<Rightarrow> bool" where
  "digit_string s \<longleftrightarrow> s \<noteq> [] \<and> length s \<le> 9 \<and> list_all is_digit s"

definition digits_lib :: cxx_lib where
  "digits_lib =
     \<lparr> stod = (\<lambda>s. if digit_string s then Some (real (digits_value s), length s) else None),
       stoi = (\<lambda>s. if digit_string s then Some (int (digits_value s), length s) else None) \<rparr>"

section \<open>\<open>std::map\<close>\<close>

text \<open>
  A \<open>std::map\<close> is kept as the list of its entries in key order, the order in which a
  range-for visits them; \<open>std::string\<close> keys compare bytewise. \<open>map_assign k v m\<close> is
  \<open>m[k] = v\<close>, \<open>map_of m k\<close> is \<open>m.find(k)\<close>.
\<close>

fun map_assign :: "'k::linorder \<Rightarrow> 'v \<Rightarrow> ('k \<times> 'v) list \<Rightarrow> ('k \<times> 'v) list" where
  "map_assign k v [] = [(k, v)]"
| "map_assign k v ((k', v') # m) =
     (if k = k' then (k, v) # m
      else if k < k' then (k, v) # (k', v') # m
      else (k', v') # map_assign k v m)"

section \<open>Pub/sub client core: \<open>MqttClient\<close>\<close>

text \<open>
  What the client does to its surroundings is recorded as a trace: storing a handler in
  \<open>message_callbacks_\<close>, handing a subscribe or publish request to the Paho client, and
  entering a handler (with the state of \<open>callbacks_mutex_\<close> at that moment). A handler is
  an opaque value of type \<open>'h\<close>. The members of the class are written without their
  trailing underscore; \<open>client_set\<close> says that \<open>client_\<close> is not null and
  \<open>paho_is_connected\<close> is what \<open>client_->is_connected()\<close> returns.
\<close>

datatype 'h event =
    HandlerStored string 'h
  | SubscribeRequest string int
  | PublishRequest string string int bool
  | HandlerEntered string 'h string string bool

record 'h MqttClient =
  client_set :: bool
  connected :: bool
  paho_is_connected :: bool
  message_callbacks :: "(string \<times> 'h) list"
  callbacks_mutex_locked :: bool
  trace :: "'h event list"

text \<open>
  The surroundings: what a call into the Paho client does (it may throw
  \<open>mqtt::exception\<close>, which \<open>subscribe\<close> and \<open>publish\<close> catch, or something else, which
  they do not), whether \<open>try_to_lock\<close> on \<open>connection_mutex_\<close> succeeds, and the JSON
  writer of the discovery publisher.
\<close>

datatype outcome = Accepted | ThrowsMqttException | ThrowsOther

datatype json = JString string | JArray "json list" | JObject "(string \<times> json) list"

record env =
  paho_subscribe :: "string \<Rightarrow> int \<Rightarrow> outcome"
  paho_publish :: "string \<Rightarrow> string \<Rightarrow> int \<Rightarrow> bool \<Rightarrow> outcome"
  try_lock_owns :: bool
  writeString :: "json \<Rightarrow> string"

text \<open>
  A call either returns a value or lets an exception escape; the state of the client after
  the call is kept in both cases.
\<close>

datatype exn = Uncaught

datatype 'a result = Returned 'a | Raised exn

definition isConnected :: "'h MqttClient \<Rightarrow> bool" where
  "isConnected c \<longleftrightarrow> connected c \<and> client_set c \<and> paho_is_connected c"

definition subscribe ::
  "env \<Rightarrow> 'h MqttClient \<Rightarrow> string \<Rightarrow> 'h \<Rightarrow> int \<Rightarrow> bool result \<times> 'h MqttClient" where
  "subscribe E c topic callback qos =
     (if \<not> isConnected c then (Returned False, c)
      else if \<not> try_lock_owns E then (Returned False, c)
      else
        let c1 = c\<lparr> message_callbacks := map_assign topic callback (message_callbacks c),
                    trace := trace c @ [HandlerStored topic callback] \<rparr>
        in if client_set c1 then
             (let c2 = c1\<lparr> trace := trace c1 @ [SubscribeRequest topic qos] \<rparr>
              in case paho_subscribe E topic qos of
                   Accepted \<Rightarrow> (Returned True, c2)
                 | ThrowsMqttException \<Rightarrow> (Returned False, c2)
                 | ThrowsOther \<Rightarrow> (Raised Uncaught, c2))
           else (Returned True, c1))"

definition publish ::
  "env \<Rightarrow> 'h MqttClient \<Rightarrow> string \<Rightarrow> string \<Rightarrow> int \<Rightarrow> bool \<Rightarrow> bool result \<times> 'h MqttClient" where
  "publish E c topic payload qos retain =
     (if \<not> isConnected c then (Returned False, c)
      else
        let c1 = c\<lparr> trace := trace c @ [PublishRequest topic payload qos retain] \<rparr>
        in case paho_publish E topic payload qos retain of
             Accepted \<Rightarrow> (Returned True, c1)
           | ThrowsMqttException \<Rightarrow> (Returned False, c1)
           | ThrowsOther \<Rightarrow> (Raised Uncaught, c1))"



text \<open>
  What a call \<open>callback(topic, payload)\<close> does is a parameter of the dispatch: its effect
  on the state \<open>'w\<close> of whatever the handlers belong to, and how it ends. It may return,
  throw a \<open>std::exception\<close> (which \<open>onMessageArrived\<close> catches and logs, going on with the
  next pattern), throw something else (which leaves \<open>onMessageArrived\<close>), or never return:
  a handler that calls \<open>subscribe\<close> or \<open>unsubscribe\<close> locks \<open>callbacks_mutex_\<close>, which
  its own thread holds and which is not recursive. Apart from that, calls of a handler
  back into the client are not modelled.
\<close>

datatype handler_outcome = HandlerReturns | ThrowsStdException | ThrowsOtherException | NeverReturns

type_synonym ('h, 'w) handlers = "'h \<Rightarrow> string \<Rightarrow> string \<Rightarrow> 'w \<Rightarrow> handler_outcome \<times> 'w"

datatype arrival = AllDispatched | ExceptionEscaped | Stuck

text \<open>
  \<open>onMessageArrived\<close>: the \<open>lock_guard\<close> on \<open>callbacks_mutex_\<close> is taken before the
  loop over \<open>message_callbacks_\<close>; it is released when the function returns or is left by
  an exception, and stays locked when a handler does not return.
\<close>

fun dispatch ::
  "('h, 'w) handlers \<Rightarrow> string \<Rightarrow> string \<Rightarrow> (string \<times> 'h) list \<Rightarrow> 'h MqttClient \<Rightarrow> 'w \<Rightarrow>
   arrival \<times> 'h MqttClient \<times> 'w" where
  "dispatch H topic payload [] c w = (AllDispatched, c, w)"
| "dispatch H topic payload ((pattern, callback) # rest) c w =
     (if topicMatches topic pattern then
        (let c1 = c\<lparr> trace := trace c @
                        [HandlerEntered pattern callback topic payload
                           (callbacks_mutex_locked c)] \<rparr>
         in case H callback topic payload w of
              (HandlerReturns, w') \<Rightarrow> dispatch H topic payload rest c1 w'
            | (ThrowsStdException, w') \<Rightarrow> dispatch H topic payload rest c1 w'
            | (ThrowsOtherException, w') \<Rightarrow> (ExceptionEscaped, c1, w')
            | (NeverReturns, w') \<Rightarrow> (Stuck, c1, w'))
      else dispatch H topic payload rest c w)"

definition onMessageArrived ::
  "('h, 'w) handlers \<Rightarrow> 'h MqttClient \<Rightarrow> 'w \<Rightarrow> string \<Rightarrow> string \<Rightarrow> arrival \<times> 'h MqttClient \<times> 'w" where
  "onMessageArrived H c w topic payload =
     (let c1 = c\<lparr> callbacks_mutex_locked := True \<rparr>
      in case dispatch H topic payload (message_callbacks c1) c1 w of
           (AllDispatched, c2, w') \<Rightarrow> (AllDispatched, c2\<lparr> callbacks_mutex_locked := False \<rparr>, w')
         | (ExceptionEscaped, c2, w') \<Rightarrow>
             (ExceptionEscaped, c2\<lparr> callbacks_mutex_locked := False \<rparr>, w')
         | (Stuck, c2, w') \<Rightarrow> (Stuck, c2, w'))"

text \<open>The events that a call has added to the trace.\<close>

definition emitted :: "'h MqttClient \<Rightarrow> 'h MqttClient \<Rightarrow> 'h event list" where
  "emitted c c' = drop (length (trace c)) (trace c')"

section \<open>Discovery: \<open>DiscoveryPublisher\<close>\<close>

record DiscoveryPublisher =
  pub_device_id :: string
  pub_device_name :: string
  manufacturer :: string
  model :: string

definition buildDeviceInfo :: "DiscoveryPublisher \<Rightarrow> json" where
  "buildDeviceInfo P =
     JObject [(''identifiers'', JArray [JString (pub_device_id P)]),
              (''name'', JString (pub_device_name P)),
              (''manufacturer'', JString (manufacturer P)),
              (''model'', JString (model P))]"

definition publishSensorConfig ::
  "env \<Rightarrow> DiscoveryPublisher \<Rightarrow> 'h MqttClient \<Rightarrow> string \<Rightarrow> string \<Rightarrow> string \<Rightarrow> string \<Rightarrow>
   string \<Rightarrow> string \<Rightarrow> bool result \<times> 'h MqttClient" where
  "publishSensorConfig E P c sensor_id name unit_of_measurement device_class state_class icon =
     (let topic = ''homeassistant/sensor/'' @ pub_device_id P @ ''/'' @ sensor_id @ ''/config'';
          config =
            [(''name'', JString name),
             (''unique_id'', JString (pub_device_id P @ ''_'' @ sensor_id)),
             (''state_topic'',
                JString (''homeassistant/sensor/'' @ pub_device_id P @ ''/'' @ sensor_id @ ''/state'')),
             (''device'', buildDeviceInfo P)]
            @ (if unit_of_measurement \<noteq> [] then
                 [(''unit_of_measurement'', JString unit_of_measurement)] else [])
            @ (if device_class \<noteq> [] then [(''device_class'', JString device_class)] else [])
            @ (if state_class \<noteq> [] then [(''state_class'', JString state_class)] else [])
            @ (if icon \<noteq> [] then [(''icon'', JString icon)] else []);
          payload = writeString E (JObject config)
      in publish E c topic payload 1 True)"

definition publishBinarySensorConfig ::
  "env \<Rightarrow> DiscoveryPublisher \<Rightarrow> 'h MqttClient \<Rightarrow> string \<Rightarrow> string \<Rightarrow> string \<Rightarrow> string \<Rightarrow>
   bool result \<times> 'h MqttClient" where
  "publishBinarySensorConfig E P c sensor_id name device_class icon =
     (let topic = ''homeassistant/binary_sensor/'' @ pub_device_id P @ ''/'' @ sensor_id @ ''/config'';
          config =
            [(''name'', JString name),
             (''unique_id'', JString (pub_device_id P @ ''_'' @ sensor_id)),
             (''state_topic'',
                JString (''homeassistant/sensor/'' @ pub_device_id P @ ''/'' @ sensor_id @ ''/state'')),
             (''payload_on'', JString ''1''),
             (''payload_off'', JString ''0''),
             (''device'', buildDeviceInfo P)]
            @ (if device_class \<noteq> [] then [(''device_class'', JString device_class)] else [])
            @ (if icon \<noteq> [] then [(''icon'', JString icon)] else []);
          payload = writeString E (JObject config)
      in publish E c topic payload 1 True)"

text \<open>
  The calls of \<open>publishAll\<close>, in its order and with the default arguments of the header
  written out (\<open>state_class = "measurement"\<close>, \<open>icon = ""\<close>).
\<close>

datatype config_call =
    Sensor string string string string string string
  | BinarySensor string string string string

definition publishAll_calls :: "config_call list" where
  "publishAll_calls =
     [Sensor ''battery_charge'' ''Battery Charge'' ''%'' ''battery'' ''measurement'' [],
      Sensor ''battery_voltage'' ''Battery Voltage'' ''V'' ''voltage'' ''measurement'' [],
      Sensor ''battery_runtime'' ''Battery Runtime'' ''min'' ''duration'' ''measurement''
        ''mdi:timer-outline'',
      Sensor ''battery_nominal_voltage'' ''Battery Nominal Voltage'' ''V'' ''voltage''
        ''measurement'' [],
      Sensor ''battery_low_charge_threshold'' ''Battery Low Charge Threshold'' ''%'' ''battery''
        ''measurement'' [],
      Sensor ''battery_warning_charge_threshold'' ''Battery Warning Charge Threshold'' ''%''
        ''battery'' ''measurement'' [],
      Sensor ''input_voltage'' ''Input Voltage'' ''V'' ''voltage'' ''measurement'' [],
      Sensor ''input_nominal_voltage'' ''Input Nominal Voltage'' ''V'' ''voltage''
        ''measurement'' [],
      Sensor ''high_voltage_transfer'' ''High Voltage Transfer'' ''V'' ''voltage''
        ''measurement'' [],
      Sensor ''low_voltage_transfer'' ''Low Voltage Transfer'' ''V'' ''voltage''
        ''measurement'' [],
      Sensor ''input_sensitivity'' ''Input Sensitivity'' [] [] [] ''mdi:tune'',
      Sensor ''last_transfer_reason'' ''Last Transfer Reason'' [] [] []
        ''mdi:information-outline'',
      Sensor ''load_percentage'' ''Load'' ''%'' ''power_factor'' ''measurement'' ''mdi:gauge'',
      Sensor ''load_watts'' ''Load Power'' ''W'' ''power'' ''measurement'' [],
      Sensor ''ups_status'' ''UPS Status'' [] [] [] ''mdi:information'',
      BinarySensor ''power_failure'' ''Power Failure'' ''power'' ''mdi:power-plug-off'',
      Sensor ''ups_nominal_power'' ''Nominal Power'' ''W'' ''power'' ''measurement'' [],
      Sensor ''beeper_status'' ''Beeper Status'' [] [] [] ''mdi:volume-high'',
      Sensor ''self_test_result'' ''Self Test Result'' [] [] [] ''mdi:clipboard-check'',
      Sensor ''firmware_version'' ''Firmware Version'' [] [] [] ''mdi:chip'',
      Sensor ''driver_name'' ''Driver Name'' [] [] [] ''mdi:application'',
      Sensor ''driver_version'' ''Driver Version'' [] [] [] ''mdi:tag'',
      Sensor ''driver_state'' ''Driver State'' [] [] [] ''mdi:state-machine'',
      Sensor ''temperature'' ''Temperature'' [CHR 0xC2, CHR 0xB0, CHR ''C''] ''temperature''
        ''measurement'' [],
      Sensor ''output_voltage'' ''Output Voltage'' ''V'' ''voltage'' ''measurement'' [],
      Sensor ''output_nominal_voltage'' ''Output Nominal Voltage'' ''V'' ''voltage''
        ''measurement'' []]"

fun publish_config ::
  "env \<Rightarrow> DiscoveryPublisher \<Rightarrow> 'h MqttClient \<Rightarrow> config_call \<Rightarrow> bool result \<times> 'h MqttClient" where
  "publish_config E P c (Sensor sensor_id name unit device_class state_class icon) =
     publishSensorConfig E P c sensor_id name unit device_class state_class icon"
| "publish_config E P c (BinarySensor sensor_id name device_class icon) =
     publishBinarySensorConfig E P c sensor_id name device_class icon"

text \<open>
  \<^verbatim>\<open>all_success &= publish...Config(...)\<close>, one call after the other; an exception that
  escapes a call ends \<open>publishAll\<close>.
\<close>

fun publish_configs ::
  "env \<Rightarrow> DiscoveryPublisher \<Rightarrow> config_call list \<Rightarrow> bool \<Rightarrow> 'h MqttClient \<Rightarrow>
   bool result \<times> 'h MqttClient" where
  "publish_configs E P [] all_success c = (Returned all_success, c)"
| "publish_configs E P (x # xs) all_success c =
     (case publish_config E P c x of
        (Raised e, c') \<Rightarrow> (Raised e, c')
      | (Returned ok, c') \<Rightarrow> publish_configs E P xs (all_success \<and> ok) c')"

definition publishAll :: "env \<Rightarrow> DiscoveryPublisher \<Rightarrow> 'h MqttClient \<Rightarrow> bool result \<times> 'h MqttClient" where
  "publishAll E P c = publish_configs E P publishAll_calls True c"

text \<open>\<open>n\<close> calls of \<open>publishAll\<close> in sequence, with the result of each.\<close>

fun publishAll_repeated ::
  "env \<Rightarrow> DiscoveryPublisher \<Rightarrow> nat \<Rightarrow> 'h MqttClient \<Rightarrow> bool list result \<times> 'h MqttClient" where
  "publishAll_repeated E P 0 c = (Returned [], c)"
| "publishAll_repeated E P (Suc n) c =
     (case publishAll E P c of
        (Raised e, c') \<Rightarrow> (Raised e, c')
      | (Returned r, c') \<Rightarrow>
          (case publishAll_repeated E P n c' of
             (Raised e, c'') \<Rightarrow> (Raised e, c'')
           | (Returned rs, c'') \<Rightarrow> (Returned (r # rs), c'')))"

section \<open>Collector: \<open>CollectorService\<close>\<close>

text \<open>
  \<open>DeviceMapper::getDbIdentifier\<close> over the static map \<open>mqtt_to_db_map_\<close>: an
  identifier that is not configured is returned as it is.
\<close>

definition getDbIdentifier :: "(string \<times> string) list \<Rightarrow> string \<Rightarrow> string" where
  "getDbIdentifier mqtt_to_db_map mqtt_device_id =
     (case map_of mqtt_to_db_map mqtt_device_id of
        Some db_identifier \<Rightarrow> db_identifier
      | None \<Rightarrow> mqtt_device_id)"

text \<open>
  The storage sink. Of \<open>DatabaseService::insertUpsMetrics\<close> the model keeps the call (the
  record and the identifier it is given) and the result; the result of the \<open>n\<close>-th call is
  given by the parameter \<open>sink\<close>.
\<close>

record DatabaseService =
  insert_calls :: "(UpsData \<times> string) list"

type_synonym sink = "nat \<Rightarrow> UpsData \<Rightarrow> string \<Rightarrow> bool"

definition insertUpsMetrics ::
  "sink \<Rightarrow> DatabaseService \<Rightarrow> UpsData \<Rightarrow> string \<Rightarrow> bool \<times> DatabaseService" where
  "insertUpsMetrics sink db data device_identifier =
     (sink (length (insert_calls db)) data device_identifier,
      db\<lparr> insert_calls := insert_calls db @ [(data, device_identifier)] \<rparr>)"

text \<open>The lines the collector writes to the console that the claims speak of.\<close>

datatype log_line =
    NewDeviceDetected string
  | InvalidDataSkippingSave string
  | SavedMetrics string
  | TriggeringInitialSave string
  | TriggeringScheduledSave string int

text \<open>
  The members of \<open>CollectorService\<close>, written without their trailing underscore. Every
  reading of the clock inside one operation returns the operation's argument \<open>now\<close>.
\<close>

record CollectorService =
  device_data :: "(string \<times> UpsData) list"
  last_save_times :: "(string \<times> time_point) list"
  save_interval_seconds :: int
  running :: bool
  last_save_time :: time_point
  db_service :: DatabaseService
  console :: "log_line list"

definition CollectorService_init :: "int \<Rightarrow> CollectorService" where
  "CollectorService_init interval =
     \<lparr> device_data = [], last_save_times = [], save_interval_seconds = interval,
       running = False, last_save_time = 0,
       db_service = \<lparr> insert_calls = [] \<rparr>, console = [] \<rparr>"

definition parseTopic :: "string \<Rightarrow> string \<times> string" where
  "parseTopic topic =
     (let parts = split topic
      in if length parts \<ge> 5 then (parts ! 2, parts ! 3) else ([], []))"

text \<open>
  \<open>onMqttMessage\<close>. The counter of received messages and its line every hundredth
  message are left out.
\<close>

definition onMqttMessage ::
  "cxx_lib \<Rightarrow> (string \<times> string) list \<Rightarrow> time_point \<Rightarrow> CollectorService \<Rightarrow> string \<Rightarrow> string \<Rightarrow>
   CollectorService" where
  "onMqttMessage L mqtt_to_db_map now s topic payload =
     (let (mqtt_device_id, sensor_name) = parseTopic topic
      in if mqtt_device_id = [] \<or> sensor_name = [] then s
         else
           let device_identifier = getDbIdentifier mqtt_to_db_map mqtt_device_id;
               s1 = (if map_of (device_data s) device_identifier = None then
                       s\<lparr> device_data :=
                            map_assign device_identifier
                              (UpsData_init\<lparr> device_id := mqtt_device_id, timestamp := now \<rparr>)
                              (device_data s),
                          last_save_times :=
                            map_assign device_identifier now (last_save_times s),
                          console := console s @ [NewDeviceDetected device_identifier] \<rparr>
                     else s);
               data = (case map_of (device_data s1) device_identifier of
                         Some d \<Rightarrow> d
                       | None \<Rightarrow> UpsData_init)
           in s1\<lparr> device_data :=
                     map_assign device_identifier
                       (updateFieldFromMqtt L now sensor_name payload data) (device_data s1) \<rparr>)"



definition saveDeviceData ::
  "sink \<Rightarrow> time_point \<Rightarrow> CollectorService \<Rightarrow> string \<Rightarrow> bool \<times> CollectorService" where
  "saveDeviceData sink now s device_identifier =
     (case map_of (device_data s) device_identifier of
        None \<Rightarrow> (False, s)
      | Some data \<Rightarrow>
          if \<not> isValid data then
            (False, s\<lparr> console := console s @ [InvalidDataSkippingSave device_identifier] \<rparr>)
          else
            let (success, db) = insertUpsMetrics sink (db_service s) data device_identifier;
                s1 = s\<lparr> db_service := db \<rparr>
            in if success then
                 (True, s1\<lparr> last_save_times :=
                              map_assign device_identifier now (last_save_times s1),
                            last_save_time := now,
                            console := console s1 @ [SavedMetrics device_identifier] \<rparr>)
               else (False, s1))"

text \<open>
  \<open>std::chrono::duration_cast<std::chrono::seconds>\<close> of a difference of two readings of
  the system clock, whose tick is a nanosecond: the quotient is truncated towards zero.
\<close>

definition duration_cast_seconds :: "int \<Rightarrow> int" where
  "duration_cast_seconds d =
     (if d \<ge> 0 then d div 1000000000 else - ((- d) div 1000000000))"

text \<open>
  The body of the range-for of \<open>scheduledSaveLoop\<close> for one entry of \<open>device_data_\<close>,
  and one pass of the \<open>while (running_)\<close> loop: the range-for over the entries, in key
  order (\<open>saveDeviceData\<close> does not change the keys); \<open>dev_id\<close> is the loop's
  \<open>device_id\<close>. The pass is followed by the sleep of a minute.
\<close>

definition check_device :: "sink \<Rightarrow> time_point \<Rightarrow> CollectorService \<Rightarrow> string \<Rightarrow> CollectorService" where
  "check_device sink now s dev_id =
     (case map_of (last_save_times s) dev_id of
        None \<Rightarrow>
          snd (saveDeviceData sink now
                 (s\<lparr> console := console s @ [TriggeringInitialSave dev_id] \<rparr>) dev_id)
      | Some last_save \<Rightarrow>
          let elapsed = duration_cast_seconds (now - last_save)
          in if elapsed \<ge> save_interval_seconds s then
               snd (saveDeviceData sink now
                      (s\<lparr> console := console s @ [TriggeringScheduledSave dev_id elapsed] \<rparr>)
                      dev_id)
             else s)"

definition scheduledSaveTick :: "sink \<Rightarrow> time_point \<Rightarrow> CollectorService \<Rightarrow> CollectorService" where
  "scheduledSaveTick sink now s = foldl (check_device sink now) s (map fst (device_data s))"

text \<open>
  \<open>scheduledSaveLoop\<close> for the passes made while \<open>running_\<close> is set, each with the reading
  of the clock at its start.
\<close>

fun scheduledSaveLoop :: "sink \<Rightarrow> time_point list \<Rightarrow> CollectorService \<Rightarrow> CollectorService" where
  "scheduledSaveLoop sink [] s = s"
| "scheduledSaveLoop sink (now # ticks) s = scheduledSaveLoop sink ticks (scheduledSaveTick sink now s)"

text \<open>\<open>stop\<close>: after the saver thread has ended, every buffered device is flushed.\<close>

definition stop :: "sink \<Rightarrow> time_point \<Rightarrow> CollectorService \<Rightarrow> CollectorService" where
  "stop sink now s =
     (if \<not> running s then s
      else foldl (\<lambda>s' dev_id. snd (saveDeviceData sink now s' dev_id))
             (s\<lparr> running := False \<rparr>) (map fst (device_data s)))"

text \<open>
  The storage calls made between two states of the collector, and the completeness gate on
  them: the later list of calls extends the earlier one, and every added call carries a
  record with both \<open>battery_charge\<close> and \<open>ups_status\<close> present.
\<close>

definition calls_added :: "CollectorService \<Rightarrow> CollectorService \<Rightarrow> (UpsData \<times> string) list" where
  "calls_added s s' = drop (length (insert_calls (db_service s))) (insert_calls (db_service s'))"

definition only_valid_added :: "CollectorService \<Rightarrow> CollectorService \<Rightarrow> bool" where
  "only_valid_added s s' \<longleftrightarrow>
     insert_calls (db_service s') = insert_calls (db_service s) @ calls_added s s' \<and>
     list_all (\<lambda>(data, device_identifier).
                 isValid data \<and> battery_charge data \<noteq> None \<and> ups_status data \<noteq> None)
              (calls_added s s')"

section \<open>Tables and concrete inputs\<close>

text \<open>
  The sensor names whose payload \<open>updateFieldFromMqtt\<close> gives to \<open>parseDouble\<close>, each
  with the field it assigns, here as the function that sets this field to \<open>std::nullopt\<close>;
  and the same for \<open>parseInt\<close>.
\<close>

definition double_sensor_fields :: "(string \<times> (UpsData \<Rightarrow> UpsData)) list" where
  "double_sensor_fields =
     [(''battery_charge'', \<lambda>d. d\<lparr>battery_charge := None\<rparr>),
      (''battery_voltage'', \<lambda>d. d\<lparr>battery_voltage := None\<rparr>),
      (''battery_nominal_voltage'', \<lambda>d. d\<lparr>battery_nominal_voltage := None\<rparr>),
      (''battery_voltage_nominal'', \<lambda>d. d\<lparr>battery_nominal_voltage := None\<rparr>),
      (''battery_low_charge_threshold'', \<lambda>d. d\<lparr>battery_low_threshold := None\<rparr>),
      (''battery_charge_low'', \<lambda>d. d\<lparr>battery_low_threshold := None\<rparr>),
      (''battery_warning_charge_threshold'', \<lambda>d. d\<lparr>battery_warning_threshold := None\<rparr>),
      (''battery_charge_warning'', \<lambda>d. d\<lparr>battery_warning_threshold := None\<rparr>),
      (''input_voltage'', \<lambda>d. d\<lparr>input_voltage := None\<rparr>),
      (''high_voltage_transfer'', \<lambda>d. d\<lparr>high_voltage_transfer := None\<rparr>),
      (''input_transfer_high'', \<lambda>d. d\<lparr>high_voltage_transfer := None\<rparr>),
      (''low_voltage_transfer'', \<lambda>d. d\<lparr>low_voltage_transfer := None\<rparr>),
      (''input_transfer_low'', \<lambda>d. d\<lparr>low_voltage_transfer := None\<rparr>),
      (''load_percentage'', \<lambda>d. d\<lparr>load_percentage := None\<rparr>),
      (''load_percent'', \<lambda>d. d\<lparr>load_percentage := None\<rparr>),
      (''load_watts'', \<lambda>d. d\<lparr>load_watts := None\<rparr>),
      (''ups_nominal_power'', \<lambda>d. d\<lparr>ups_nominal_power := None\<rparr>),
      (''temperature'', \<lambda>d. d\<lparr>temperature := None\<rparr>),
      (''output_voltage'', \<lambda>d. d\<lparr>output_voltage := None\<rparr>)]"

definition int_sensor_fields :: "(string \<times> (UpsData \<Rightarrow> UpsData)) list" where
  "int_sensor_fields =
     [(''battery_runtime'', \<lambda>d. d\<lparr>battery_runtime := None\<rparr>),
      (''input_nominal_voltage'', \<lambda>d. d\<lparr>input_nominal_voltage := None\<rparr>),
      (''input_voltage_nominal'', \<lambda>d. d\<lparr>input_nominal_voltage := None\<rparr>),
      (''output_nominal_voltage'', \<lambda>d. d\<lparr>output_nominal_voltage := None\<rparr>)]"

text \<open>One second in ticks of the clock, and a sink whose every insert succeeds.\<close>

definition sec :: int where
  "sec = 1000000000"

definition always_ok :: sink where
  "always_ok n data device_identifier = True"

text \<open>
  The record of device \<open>dev\<close> after the updates \<open>battery_charge = 100\<close> and
  \<open>ups_status = OL\<close>, the later one at time \<open>t\<close>.
\<close>

definition charged_online :: "string \<Rightarrow> time_point \<Rightarrow> UpsData" where
  "charged_online dev t =
     UpsData_init\<lparr> device_id := dev, timestamp := t, battery_charge := Some 100,
                   ups_status := Some ''OL'', power_failure := Some False \<rparr>"

text \<open>
  A collector with an interval of 3600 seconds. Device \<open>d2\<close> sends its charge and status
  at time 0 and is saved by the pass at 3600 s; ten seconds later device \<open>d1\<close> sends its
  charge and status, which creates its record.
\<close>

definition d2_created :: CollectorService where
  "d2_created =
     onMqttMessage digits_lib [] 0
       (onMqttMessage digits_lib [] 0 (CollectorService_init 3600)
          ''homeassistant/sensor/d2/battery_charge/state'' ''100'')
       ''homeassistant/sensor/d2/ups_status/state'' ''OL''"

definition d2_saved :: CollectorService where
  "d2_saved = scheduledSaveTick always_ok (3600 * sec) d2_created"

definition d1_created :: CollectorService where
  "d1_created =
     onMqttMessage digits_lib [] (3610 * sec)
       (onMqttMessage digits_lib [] (3610 * sec) d2_saved
          ''homeassistant/sensor/d1/battery_charge/state'' ''100'')
       ''homeassistant/sensor/d1/ups_status/state'' ''OL''"

text \<open>
  A running collector that holds a complete record for \<open>X\<close> and a record without status
  for \<open>Y\<close>, both saved last at time 0.
\<close>

definition two_devices :: CollectorService where
  "two_devices =
     \<lparr> device_data = [(''X'', charged_online ''X'' (5 * sec)),
                       (''Y'', UpsData_init\<lparr> device_id := ''Y'', timestamp := 6 * sec,
                                              battery_charge := Some 50 \<rparr>)],
       last_save_times = [(''X'', 0), (''Y'', 0)],
       save_interval_seconds = 3600, running = True, last_save_time = 0,
       db_service = \<lparr> insert_calls = [] \<rparr>, console = [] \<rparr>"

text \<open>
  Clients with handlers of type \<open>nat\<close>: the client as its constructor leaves it, and a
  connected client with one handler. In \<open>quiet_env\<close> the Paho client accepts every request.
\<close>

definition MqttClient_init :: "nat MqttClient" where
  "MqttClient_init =
     \<lparr> client_set = False, connected = False, paho_is_connected = False,
       message_callbacks = [], callbacks_mutex_locked = False, trace = [] \<rparr>"

definition connected_client :: "nat MqttClient" where
  "connected_client =
     \<lparr> client_set = True, connected = True, paho_is_connected = True,
       message_callbacks = [(''a/b'', 7)], callbacks_mutex_locked = False, trace = [] \<rparr>"

definition quiet_env :: env where
  "quiet_env =
     \<lparr> paho_subscribe = (\<lambda>topic qos. Accepted),
       paho_publish = (\<lambda>topic payload qos retain. Accepted),
       try_lock_owns = True,
       writeString = (\<lambda>j. []) \<rparr>"

definition apc_publisher :: DiscoveryPublisher where
  "apc_publisher =
     \<lparr> pub_device_id = ''apc_ups'', pub_device_name = ''Docker NUT UPS'',
       manufacturer = ''American Power Conversion'', model = ''Back-UPS XS 1000M'' \<rparr>"


text \<open>
  What can happen to a collector after its construction: \<open>start\<close> (which sets
  \<open>running_\<close>), a message handed to \<open>onMqttMessage\<close>, a pass of the scheduled loop, and
  \<open>stop\<close>; and the collector after a sequence of these.
\<close>

datatype collector_op =
    Start
  | Message time_point string string
  | Pass time_point
  | Stop time_point

fun collector_step ::
  "cxx_lib \<Rightarrow> (string \<times> string) list \<Rightarrow> sink \<Rightarrow> CollectorService \<Rightarrow> collector_op \<Rightarrow>
   CollectorService" where
  "collector_step L M sink s Start = s\<lparr> running := True \<rparr>"
| "collector_step L M sink s (Message now topic payload) = onMqttMessage L M now s topic payload"
| "collector_step L M sink s (Pass now) = scheduledSaveTick sink now s"
| "collector_step L M sink s (Stop now) = stop sink now s"

definition collector_run ::
  "cxx_lib \<Rightarrow> (string \<times> string) list \<Rightarrow> sink \<Rightarrow> int \<Rightarrow> collector_op list \<Rightarrow> CollectorService" where
  "collector_run L M sink interval ops =
     foldl (collector_step L M sink) (CollectorService_init interval) ops"

text \<open>
  Every buffered device has an entry in \<open>last_save_times_\<close>; and the devices for which
  the console shows the line of the first-save branch of the scheduled loop.
\<close>

definition save_times_recorded :: "CollectorService \<Rightarrow> bool" where
  "save_times_recorded s \<longleftrightarrow>
     list_all (\<lambda>dev. map_of (last_save_times s) dev \<noteq> None) (map fst (device_data s))"

fun initial_saves :: "log_line list \<Rightarrow> string list" where
  "initial_saves [] = []"
| "initial_saves (TriggeringInitialSave dev # ls) = dev # initial_saves ls"
| "initial_saves (l # ls) = initial_saves ls"



text \<open>Handlers that return at once and leave their surroundings as they are.\<close>

definition returning_handlers :: "(nat, unit) handlers" where
  "returning_handlers callback topic payload w = (HandlerReturns, w)"

section \<open>Properties\<close>

subsection \<open>Topic matching\<close>

lemma match_levels_iff:
  "match_levels i ps ts \<longleftrightarrow> (\<forall>j. i \<le> j \<and> j < length ps \<longrightarrow> ps ! j = ''+'' \<or> ps ! j = ts ! j)"
proof (induction i ps ts rule: match_levels.induct)
  case (1 i ps ts)
  show ?case
  proof (cases "i < length ps")
    case False
    then show ?thesis by (subst match_levels.simps) auto
  next
    case True
    have split_range: "(\<forall>j. i \<le> j \<and> j < length ps \<longrightarrow> P j) \<longleftrightarrow>
                       P i \<and> (\<forall>j. i + 1 \<le> j \<and> j < length ps \<longrightarrow> P j)" for P
      using True by (metis Suc_eq_plus1 Suc_leI le_eq_less_or_eq le_refl less_le_trans lessI not_less_eq_eq)
    show ?thesis
    proof (cases "ps ! i = ''+''")
      case plus: True
      with True 1 show ?thesis
        by (subst match_levels.simps) (simp add: split_range)
    next
      case lit: False
      show ?thesis
      proof (cases "ps ! i = ts ! i")
        case True
        with lit \<open>i < length ps\<close> 1 show ?thesis
          by (subst match_levels.simps) (simp add: split_range)
      next
        case False
        with lit \<open>i < length ps\<close> show ?thesis
          by (subst match_levels.simps) (auto simp: split_range)
      qed
    qed
  qed
qed


text \<open>
  The parts that the code's \<open>split\<close> yields are the levels of the string without a final
  empty level: \<open>std::getline\<close> finds nothing after a final separator, and nothing in the
  empty string.
\<close>

lemma split_Nil: "split [] = []"
  by (simp add: split.simps getline_def)

lemma split_Cons:
  "split (c # cs) =
     (if c = CHR ''/'' then [] # split cs
      else (case split cs of [] \<Rightarrow> [[c]] | p # ps \<Rightarrow> (c # p) # ps))"
proof (cases "c = CHR ''/''")
  case True
  then show ?thesis
    by (subst split.simps) (simp add: getline_def)
next
  case False
  show ?thesis
  proof (cases cs)
    case Nil
    with False show ?thesis
      by (subst split.simps) (simp add: getline_def split_Nil)
  next
    case (Cons d ds)
    have here: "split (c # cs) =
                  (c # takeWhile (\<lambda>x. x \<noteq> CHR ''/'') cs)
                  # split (drop 1 (dropWhile (\<lambda>x. x \<noteq> CHR ''/'') cs))"
      using False by (subst split.simps) (simp add: getline_def)
    have there: "split cs =
                   takeWhile (\<lambda>x. x \<noteq> CHR ''/'') cs
                   # split (drop 1 (dropWhile (\<lambda>x. x \<noteq> CHR ''/'') cs))"
      using Cons by (subst split.simps) (simp add: getline_def)
    show ?thesis
      using False by (simp add: here there)
  qed
qed

lemma topic_levels_nonempty: "topic_levels s \<noteq> []"
  by (induction s) (auto split: list.split)

lemma topic_levels_count:
  "length (topic_levels s) = Suc (length (filter (\<lambda>c. c = CHR ''/'') s))"
  by (induction s) (auto split: list.split simp: topic_levels_nonempty)

lemma split_counted_levels: "split s = counted_levels s"
proof (induction s)
  case Nil
  show ?case by (simp add: split_Nil counted_levels_def)
next
  case (Cons c cs)
  obtain l ls where levels: "topic_levels cs = l # ls"
    using topic_levels_nonempty [of cs] by (cases "topic_levels cs") auto
  show ?case
  proof (cases "c = CHR ''/''")
    case True
    with Cons levels show ?thesis
      by (simp add: split_Cons counted_levels_def)
  next
    case False
    with Cons levels show ?thesis
      by (cases ls) (auto simp: split_Cons counted_levels_def split: if_splits)
  qed
qed





subsection \<open>Field updates\<close>

lemma updateFieldFromMqtt_timestamp:
  "timestamp (updateFieldFromMqtt L now sensor_name val d) = now"
  by (simp add: updateFieldFromMqtt_def Let_def split: option.split)

lemma updateFieldFromMqtt_unrecognized:
  "sensor_name \<notin> set recognized_sensor_names \<Longrightarrow>
   updateFieldFromMqtt L now sensor_name val d = d\<lparr>timestamp := now\<rparr>"
  unfolding recognized_sensor_names_def updateFieldFromMqtt_def Let_def
  by (simp only: list.set insert_iff empty_iff de_Morgan_disj simp_thms if_False)

lemma updateFieldFromMqtt_battery_charge:
  "updateFieldFromMqtt L now ''battery_charge'' val d =
     d\<lparr>timestamp := now, battery_charge := parseDouble L val\<rparr>"
  by (simp add: updateFieldFromMqtt_def Let_def)

lemma updateFieldFromMqtt_ups_status:
  "updateFieldFromMqtt L now ''ups_status'' val d =
     d\<lparr>timestamp := now, ups_status := Some val,
       power_failure := Some (string_find val ''OB'' \<noteq> None)\<rparr>"
  by (simp add: updateFieldFromMqtt_def Let_def)

lemma parseDouble_digits_100: "parseDouble digits_lib ''100'' = Some 100"
  by (simp add: parseDouble_def digits_lib_def digit_string_def is_digit_def digits_value_def)

lemma parseDouble_digits_abc: "parseDouble digits_lib ''abc'' = None"
  by (simp add: parseDouble_def digits_lib_def digit_string_def is_digit_def)

lemma parseInt_digits_abc: "parseInt digits_lib ''abc'' = None"
  by (simp add: parseInt_def digits_lib_def digit_string_def is_digit_def)

lemma string_find_OL: "string_find ''OL'' ''OB'' = None"
  by (simp add: string_find_def)

lemma double_field_cleared:
  assumes "parseDouble L val = None" "(name, clear) \<in> set double_sensor_fields"
  shows "updateFieldFromMqtt L now name val d = clear (d\<lparr>timestamp := now\<rparr>)"
  using assms(2) unfolding double_sensor_fields_def
  apply (simp only: list.set insert_iff empty_iff prod.inject)
  apply (elim disjE conjE)
  apply (simp_all add: updateFieldFromMqtt_def Let_def assms(1))
  done

lemma int_field_cleared:
  assumes "parseInt L val = None" "(name, clear) \<in> set int_sensor_fields"
  shows "updateFieldFromMqtt L now name val d = clear (d\<lparr>timestamp := now\<rparr>)"
  using assms(2) unfolding int_sensor_fields_def
  apply (simp only: list.set insert_iff empty_iff prod.inject)
  apply (elim disjE conjE)
  apply (simp_all add: updateFieldFromMqtt_def Let_def assms(1))
  done

text \<open>
  C10. Every call of \<open>updateFieldFromMqtt\<close> sets the timestamp of the record to the
  current time, whatever the sensor name and the payload; and for a sensor name that is
  none of the names the function tests for, the timestamp is all that changes.
\<close>

theorem updateFieldFromMqtt_touches_timestamp:
  "timestamp (updateFieldFromMqtt L now sensor_name val d) = now \<and>
   (sensor_name \<notin> set recognized_sensor_names \<longrightarrow>
      updateFieldFromMqtt L now sensor_name val d = d\<lparr>timestamp := now\<rparr>)"
  using updateFieldFromMqtt_timestamp updateFieldFromMqtt_unrecognized by blast

theorem updateFieldFromMqtt_touches_timestamp_witness:
  "''humidity'' \<notin> set recognized_sensor_names \<and>
   timestamp (updateFieldFromMqtt digits_lib 42 ''battery_charge'' ''abc'' (charged_online ''X'' 7)) = 42 \<and>
   updateFieldFromMqtt digits_lib 42 ''humidity'' ''55'' (charged_online ''X'' 7) =
     charged_online ''X'' 42"
proof -
  have unknown: "''humidity'' \<notin> set recognized_sensor_names"
    by (simp add: recognized_sensor_names_def)
  show ?thesis
    using unknown
      updateFieldFromMqtt_touches_timestamp
        [of digits_lib 42 "''battery_charge''" "''abc''" "charged_online ''X'' 7"]
      updateFieldFromMqtt_touches_timestamp
        [of digits_lib 42 "''humidity''" "''55''" "charged_online ''X'' 7"]
    by (simp add: charged_online_def)
qed

text \<open>
  C5, as the claim states it, fails: a payload that does not parse clears the field. The
  record holds a battery charge of 100; after the update \<open>battery_charge = abc\<close> the
  charge is absent.
\<close>

theorem unparsable_keeps_field_counterexample:
  "parseDouble digits_lib ''abc'' = None \<and>
   battery_charge (charged_online ''X'' 7) = Some 100 \<and>
   battery_charge (updateFieldFromMqtt digits_lib 42 ''battery_charge'' ''abc''
                     (charged_online ''X'' 7)) = None"
  by (simp add: updateFieldFromMqtt_battery_charge parseDouble_digits_abc charged_online_def)

text \<open>
  C5, amended. When the payload does not parse as the type of the field (\<open>double\<close> or
  \<open>int\<close>), the update sets the field to absent, whatever it held before; apart from this
  field and the timestamp the record is unchanged.
\<close>

theorem unparsable_clears_field:
  "(parseDouble L val = None \<longrightarrow>
      (\<forall>(name, clear) \<in> set double_sensor_fields.
         updateFieldFromMqtt L now name val d = clear (d\<lparr>timestamp := now\<rparr>))) \<and>
   (parseInt L val = None \<longrightarrow>
      (\<forall>(name, clear) \<in> set int_sensor_fields.
         updateFieldFromMqtt L now name val d = clear (d\<lparr>timestamp := now\<rparr>)))"
proof (intro conjI impI ballI)
  fix x
  assume p: "parseDouble L val = None" and x: "x \<in> set double_sensor_fields"
  obtain name clear where xe: "x = (name, clear)" by (cases x)
  show "case x of (name, clear) \<Rightarrow>
          updateFieldFromMqtt L now name val d = clear (d\<lparr>timestamp := now\<rparr>)"
    using double_field_cleared [OF p, of name clear] x unfolding xe by simp
next
  fix x
  assume p: "parseInt L val = None" and x: "x \<in> set int_sensor_fields"
  obtain name clear where xe: "x = (name, clear)" by (cases x)
  show "case x of (name, clear) \<Rightarrow>
          updateFieldFromMqtt L now name val d = clear (d\<lparr>timestamp := now\<rparr>)"
    using int_field_cleared [OF p, of name clear] x unfolding xe by simp
qed

theorem unparsable_clears_field_witness:
  "parseDouble digits_lib ''abc'' = None \<and> parseInt digits_lib ''abc'' = None \<and>
   (''battery_charge'', \<lambda>d. d\<lparr>battery_charge := None\<rparr>) \<in> set double_sensor_fields \<and>
   (''battery_runtime'', \<lambda>d. d\<lparr>battery_runtime := None\<rparr>) \<in> set int_sensor_fields \<and>
   updateFieldFromMqtt digits_lib 42 ''battery_charge'' ''abc'' (charged_online ''X'' 7) =
     (charged_online ''X'' 42)\<lparr>battery_charge := None\<rparr> \<and>
   updateFieldFromMqtt digits_lib 42 ''battery_runtime'' ''abc''
       ((charged_online ''X'' 7)\<lparr>battery_runtime := Some 2400\<rparr>) =
     charged_online ''X'' 42"
proof -
  have m1: "(''battery_charge'', \<lambda>d. d\<lparr>battery_charge := None\<rparr>) \<in> set double_sensor_fields"
    by (simp add: double_sensor_fields_def)
  have m2: "(''battery_runtime'', \<lambda>d. d\<lparr>battery_runtime := None\<rparr>) \<in> set int_sensor_fields"
    by (simp add: int_sensor_fields_def)
  note t1 = unparsable_clears_field
              [of digits_lib "''abc''" 42 "charged_online ''X'' 7", THEN conjunct1,
               rule_format, OF parseDouble_digits_abc m1]
  note t2 = unparsable_clears_field
              [of digits_lib "''abc''" 42 "(charged_online ''X'' 7)\<lparr>battery_runtime := Some 2400\<rparr>",
               THEN conjunct2, rule_format, OF parseInt_digits_abc m2]
  show ?thesis
    using t1 t2 m1 m2
    by (simp add: parseDouble_digits_abc parseInt_digits_abc charged_online_def UpsData_init_def)
qed


subsection \<open>The client\<close>

lemma map_of_map_assign: "map_of (map_assign k v m) = (map_of m)(k \<mapsto> v)"
  by (induction m) (auto simp: fun_eq_iff)

lemma keys_map_assign: "fst ` set (map_assign k v m) = insert k (fst ` set m)"
  using arg_cong [OF map_of_map_assign [of k v m], of dom]
  by (simp add: dom_map_of_conv_image_fst)

lemma topicMatches_a_b: "topicMatches ''a/b'' ''a/b''"
  by code_simp

text \<open>
  What a dispatch adds to the trace, whatever the handlers do: entries of handlers whose
  pattern is registered and matches the topic, each of them made while \<open>callbacks_mutex_\<close>
  is in the state it has at the start of the loop.
\<close>

lemma dispatch_trace:
  "\<exists>new. trace (fst (snd (dispatch H topic payload cbs c w))) = trace c @ new \<and>
         (\<forall>e \<in> set new. \<exists>pattern callback.
            (pattern, callback) \<in> set cbs \<and> topicMatches topic pattern \<and>
            e = HandlerEntered pattern callback topic payload (callbacks_mutex_locked c))"
proof (induction cbs arbitrary: c w)
  case Nil
  show ?case by simp
next
  case (Cons x cbs)
  obtain pattern callback where x: "x = (pattern, callback)" by (cases x)
  show ?case
  proof (cases "topicMatches topic pattern")
    case False
    from Cons [of c w] obtain new where
      rest: "trace (fst (snd (dispatch H topic payload cbs c w))) = trace c @ new"
        "\<forall>e \<in> set new. \<exists>p h. (p, h) \<in> set cbs \<and> topicMatches topic p \<and>
                  e = HandlerEntered p h topic payload (callbacks_mutex_locked c)"
      by auto
    from rest(2) have "\<forall>e \<in> set new. \<exists>p h. (p, h) \<in> set (x # cbs) \<and> topicMatches topic p \<and>
                  e = HandlerEntered p h topic payload (callbacks_mutex_locked c)"
      by fastforce
    with False rest(1) show ?thesis
      by (intro exI [of _ new]) (simp add: x)
  next
    case True
    let ?e = "HandlerEntered pattern callback topic payload (callbacks_mutex_locked c)"
    let ?c1 = "c\<lparr> trace := trace c @ [?e] \<rparr>"
    obtain out w' where run: "H callback topic payload w = (out, w')"
      by (cases "H callback topic payload w")
    from Cons [of ?c1 w'] obtain new where
      rest: "trace (fst (snd (dispatch H topic payload cbs ?c1 w'))) = trace ?c1 @ new"
        "\<forall>e \<in> set new. \<exists>p h. (p, h) \<in> set cbs \<and> topicMatches topic p \<and>
                  e = HandlerEntered p h topic payload (callbacks_mutex_locked c)"
      by auto
    show ?thesis
    proof (cases out)
      case HandlerReturns
      with True run rest show ?thesis
        by (intro exI [of _ "?e # new"]) (auto simp: x Let_def)
    next
      case ThrowsStdException
      with True run rest show ?thesis
        by (intro exI [of _ "?e # new"]) (auto simp: x Let_def)
    next
      case ThrowsOtherException
      with True run show ?thesis
        by (intro exI [of _ "[?e]"]) (auto simp: x Let_def)
    next
      case NeverReturns
      with True run show ?thesis
        by (intro exI [of _ "[?e]"]) (auto simp: x Let_def)
    qed
  qed
qed

lemma onMessageArrived_lock_held:
  assumes "e \<in> set (emitted c (fst (snd (onMessageArrived H c w topic payload))))"
  shows "\<exists>pattern callback.
           map_of (message_callbacks c) pattern \<noteq> None \<and> topicMatches topic pattern \<and>
           e = HandlerEntered pattern callback topic payload True"
proof -
  let ?c1 = "c\<lparr> callbacks_mutex_locked := True \<rparr>"
  obtain a c2 w' where run: "dispatch H topic payload (message_callbacks c) ?c1 w = (a, c2, w')"
    by (cases "dispatch H topic payload (message_callbacks c) ?c1 w")
  from dispatch_trace [of H topic payload "message_callbacks c" ?c1 w] run
  obtain new where new: "trace c2 = trace c @ new"
    "\<forall>e \<in> set new. \<exists>p h. (p, h) \<in> set (message_callbacks c) \<and> topicMatches topic p \<and>
              e = HandlerEntered p h topic payload True"
    by auto
  have "emitted c (fst (snd (onMessageArrived H c w topic payload))) = new"
    using run new(1) by (cases a) (simp_all add: onMessageArrived_def emitted_def Let_def)
  with assms new(2) obtain p h where
    "(p, h) \<in> set (message_callbacks c)" "topicMatches topic p"
    "e = HandlerEntered p h topic payload True"
    by blast
  moreover from this(1) have "map_of (message_callbacks c) p \<noteq> None"
    by (simp add: map_of_eq_None_iff) force
  ultimately show ?thesis by blast
qed

text \<open>
  When every handler returns or throws a \<open>std::exception\<close>, the dispatch enters the
  handler of every registered pattern that matches the topic, in key order.
\<close>

lemma dispatch_all:
  assumes "\<forall>(pattern, callback) \<in> set cbs. \<forall>w.
             fst (H callback topic payload w) = HandlerReturns \<or>
             fst (H callback topic payload w) = ThrowsStdException"
  shows "fst (dispatch H topic payload cbs c w) = AllDispatched \<and>
         trace (fst (snd (dispatch H topic payload cbs c w))) =
           trace c @ map (\<lambda>(pattern, callback).
                            HandlerEntered pattern callback topic payload (callbacks_mutex_locked c))
                         (filter (\<lambda>(pattern, callback). topicMatches topic pattern) cbs)"
  using assms
proof (induction cbs arbitrary: c w)
  case Nil
  show ?case by simp
next
  case (Cons x cbs)
  obtain pattern callback where x: "x = (pattern, callback)" by (cases x)
  obtain out w' where run: "H callback topic payload w = (out, w')"
    by (cases "H callback topic payload w")
  from Cons.prems x run have out: "out = HandlerReturns \<or> out = ThrowsStdException"
    by (auto dest: spec [of _ w])
  from Cons.prems have rest:
    "\<forall>(pattern, callback) \<in> set cbs. \<forall>w.
       fst (H callback topic payload w) = HandlerReturns \<or>
       fst (H callback topic payload w) = ThrowsStdException"
    by simp
  show ?case
    using out run Cons.IH [OF rest] by (auto simp: x Let_def)
qed

lemma onMessageArrived_routes:
  assumes "map_of (message_callbacks c) pattern = Some callback" "topicMatches topic pattern"
    and "\<forall>(p, h) \<in> set (message_callbacks c). \<forall>w.
           fst (H h topic payload w) = HandlerReturns \<or>
           fst (H h topic payload w) = ThrowsStdException"
  shows "HandlerEntered pattern callback topic payload True
           \<in> set (emitted c (fst (snd (onMessageArrived H c w topic payload))))"
proof -
  let ?c1 = "c\<lparr> callbacks_mutex_locked := True \<rparr>"
  have member: "(pattern, callback) \<in> set (message_callbacks c)"
    using assms(1) by (rule map_of_SomeD)
  have "emitted c (fst (snd (onMessageArrived H c w topic payload))) =
          map (\<lambda>(pattern, callback). HandlerEntered pattern callback topic payload True)
              (filter (\<lambda>(pattern, callback). topicMatches topic pattern) (message_callbacks c))"
    using dispatch_all [where cbs = "message_callbacks c" and H = H and topic = topic
                          and payload = payload and c = ?c1 and w = w] assms(3)
    by (cases "dispatch H topic payload (message_callbacks c) ?c1 w")
       (simp add: onMessageArrived_def emitted_def Let_def)
  with member assms(2) show ?thesis
    by force
qed

text \<open>
  C3. Whenever a call of \<open>subscribe\<close> hands a subscribe request to the Paho client, the
  events of the call are: the handler is stored, then the request is made; and at the
  request the registry maps the pattern to the handler.
\<close>

theorem subscribe_registers_before_request:
  assumes "subscribe E c topic callback qos = (r, c')"
  shows "trace c' = trace c @ emitted c c' \<and>
         (SubscribeRequest topic qos \<in> set (emitted c c') \<longrightarrow>
            emitted c c' = [HandlerStored topic callback, SubscribeRequest topic qos] \<and>
            map_of (message_callbacks c') topic = Some callback)"
proof -
  have tr: "trace c' = trace c @ emitted c c'"
    using assms
    by (auto simp: subscribe_def emitted_def Let_def split: if_splits outcome.splits)
  have ev: "emitted c c' = [] \<or> emitted c c' = [HandlerStored topic callback] \<or>
            emitted c c' = [HandlerStored topic callback, SubscribeRequest topic qos] \<and>
            map_of (message_callbacks c') topic = Some callback"
    using assms
    by (auto simp: subscribe_def emitted_def Let_def map_of_map_assign
             split: if_splits outcome.splits)
  show ?thesis
    using tr ev by auto
qed

theorem subscribe_registers_before_request_witness:
  "subscribe quiet_env connected_client ''a/+/c'' 9 1 =
     (Returned True,
      connected_client\<lparr> message_callbacks := [(''a/+/c'', 9), (''a/b'', 7)],
                        trace := [HandlerStored ''a/+/c'' 9, SubscribeRequest ''a/+/c'' 1] \<rparr>) \<and>
   SubscribeRequest ''a/+/c'' 1
     \<in> set (emitted connected_client
              (connected_client\<lparr> message_callbacks := [(''a/+/c'', 9), (''a/b'', 7)],
                                trace := [HandlerStored ''a/+/c'' 9, SubscribeRequest ''a/+/c'' 1] \<rparr>)) \<and>
   emitted connected_client
     (connected_client\<lparr> message_callbacks := [(''a/+/c'', 9), (''a/b'', 7)],
                       trace := [HandlerStored ''a/+/c'' 9, SubscribeRequest ''a/+/c'' 1] \<rparr>) =
     [HandlerStored ''a/+/c'' 9, SubscribeRequest ''a/+/c'' 1] \<and>
   map_of [(''a/+/c'', 9), (''a/b'', 7 :: nat)] ''a/+/c'' = Some 9"
proof -
  let ?c' = "connected_client\<lparr> message_callbacks := [(''a/+/c'', 9), (''a/b'', 7)],
               trace := [HandlerStored ''a/+/c'' 9, SubscribeRequest ''a/+/c'' 1] \<rparr>"
  have run: "subscribe quiet_env connected_client ''a/+/c'' 9 1 = (Returned True, ?c')"
    by (simp add: subscribe_def isConnected_def connected_client_def quiet_env_def Let_def)
  have req: "SubscribeRequest ''a/+/c'' 1 \<in> set (emitted connected_client ?c')"
    by (simp add: emitted_def connected_client_def)
  show ?thesis
    using run req subscribe_registers_before_request [OF run]
    by simp
qed

text \<open>
  C4. A connected client with the one handler 7, registered for \<open>a/b\<close>, receives a message
  on \<open>a/b\<close>: whatever the handler does, it is entered while \<open>callbacks_mutex_\<close> is
  locked.
\<close>

theorem handler_entered_with_lock_held:
  "emitted connected_client (fst (snd (onMessageArrived H connected_client w ''a/b'' ''x''))) =
     [HandlerEntered ''a/b'' 7 ''a/b'' ''x'' True]"
proof -
  obtain out w' where run: "H 7 ''a/b'' ''x'' w = (out, w')"
    by (cases "H 7 ''a/b'' ''x'' w")
  then show ?thesis
    by (cases out)
       (simp_all add: onMessageArrived_def emitted_def connected_client_def topicMatches_a_b
                      Let_def)
qed

subsection \<open>Not connected\<close>

lemma publish_disconnected:
  "\<not> isConnected c \<Longrightarrow> publish E c topic payload qos retain = (Returned False, c)"
  by (simp add: publish_def)

lemma publish_config_disconnected:
  "\<not> isConnected c \<Longrightarrow> publish_config E P c x = (Returned False, c)"
  by (cases x)
     (simp_all add: publishSensorConfig_def publishBinarySensorConfig_def Let_def
                    publish_disconnected)

lemma publish_configs_disconnected:
  "\<not> isConnected c \<Longrightarrow>
   publish_configs E P xs all_success c = (Returned (all_success \<and> xs = []), c)"
  by (induction xs arbitrary: all_success) (simp_all add: publish_config_disconnected)

lemma publishAll_calls_nonempty: "publishAll_calls \<noteq> []"
  by (simp add: publishAll_calls_def)

lemma publishAll_disconnected: "\<not> isConnected c \<Longrightarrow> publishAll E P c = (Returned False, c)"
  by (simp add: publishAll_def publish_configs_disconnected publishAll_calls_nonempty)

lemma publishAll_repeated_disconnected:
  "\<not> isConnected c \<Longrightarrow> publishAll_repeated E P n c = (Returned (replicate n False), c)"
  by (induction n) (simp_all add: publishAll_disconnected)

text \<open>
  C9. While the client is not connected, \<open>publish\<close> and \<open>subscribe\<close> return false and
  leave the client as it was: nothing is handed to the Paho client and no handler is
  stored. \<open>publishAll\<close> then returns false, no exception escapes it, and any number of
  calls in sequence return false each.
\<close>

theorem disconnected_fails_fast:
  assumes "\<not> isConnected c"
  shows "publish E c topic payload qos retain = (Returned False, c) \<and>
         subscribe E c topic callback qos = (Returned False, c) \<and>
         publishAll E P c = (Returned False, c) \<and>
         publishAll_repeated E P n c = (Returned (replicate n False), c)"
  using assms
  by (simp add: publish_disconnected publishAll_disconnected publishAll_repeated_disconnected
                subscribe_def)

theorem disconnected_fails_fast_witness:
  "\<not> isConnected MqttClient_init \<and>
   publish quiet_env MqttClient_init ''a/b'' ''x'' 1 False = (Returned False, MqttClient_init) \<and>
   subscribe quiet_env MqttClient_init ''a/b'' 9 1 = (Returned False, MqttClient_init) \<and>
   publishAll quiet_env apc_publisher MqttClient_init = (Returned False, MqttClient_init) \<and>
   publishAll_repeated quiet_env apc_publisher 3 MqttClient_init =
     (Returned [False, False, False], MqttClient_init)"
proof -
  have off: "\<not> isConnected MqttClient_init"
    by (simp add: isConnected_def MqttClient_init_def)
  show ?thesis
    using off
      disconnected_fails_fast [OF off, of quiet_env "''a/b''" "''x''" 1 False 9 apc_publisher 3]
    by (simp add: numeral_3_eq_3)
qed


subsection \<open>The completeness gate\<close>

lemma only_valid_added_iff:
  "only_valid_added s s' \<longleftrightarrow>
     (\<exists>new. insert_calls (db_service s') = insert_calls (db_service s) @ new \<and>
            list_all (\<lambda>(data, device_identifier). isValid data) new)"
  by (auto simp: only_valid_added_def calls_added_def isValid_def list_all_iff)

lemma only_valid_added_refl: "only_valid_added s s"
  by (simp add: only_valid_added_iff)

lemma only_valid_added_trans:
  "only_valid_added s s' \<Longrightarrow> only_valid_added s' s'' \<Longrightarrow> only_valid_added s s''"
  by (auto simp: only_valid_added_iff)

lemma saveDeviceData_gate: "only_valid_added s (snd (saveDeviceData sink now s dev))"
  by (auto simp: only_valid_added_iff saveDeviceData_def insertUpsMetrics_def Let_def
           split: option.split prod.split)

lemma check_device_gate: "only_valid_added s (check_device sink now s dev)"
proof -
  have "only_valid_added s (s\<lparr>console := l\<rparr>)" for l
    by (simp add: only_valid_added_iff)
  then show ?thesis
    unfolding check_device_def Let_def
    by (auto split: option.split
             intro: only_valid_added_trans saveDeviceData_gate only_valid_added_refl)
qed

lemma foldl_check_device_gate: "only_valid_added s (foldl (check_device sink now) s devs)"
proof (induction devs arbitrary: s)
  case Nil
  show ?case by (simp add: only_valid_added_refl)
next
  case (Cons dev devs)
  show ?case
    using only_valid_added_trans [OF check_device_gate Cons.IH] by simp
qed

lemma foldl_saveDeviceData_gate:
  "only_valid_added s (foldl (\<lambda>s' dev_id. snd (saveDeviceData sink now s' dev_id)) s devs)"
proof (induction devs arbitrary: s)
  case Nil
  show ?case by (simp add: only_valid_added_refl)
next
  case (Cons dev devs)
  show ?case
    using only_valid_added_trans [OF saveDeviceData_gate Cons.IH] by simp
qed

lemma scheduledSaveTick_gate: "only_valid_added s (scheduledSaveTick sink now s)"
  by (simp add: scheduledSaveTick_def foldl_check_device_gate)

lemma scheduledSaveLoop_gate: "only_valid_added s (scheduledSaveLoop sink ticks s)"
proof (induction ticks arbitrary: s)
  case Nil
  show ?case by (simp add: only_valid_added_refl)
next
  case (Cons t ticks)
  show ?case
    using only_valid_added_trans [OF scheduledSaveTick_gate Cons.IH] by simp
qed

lemma stop_gate: "only_valid_added s (stop sink now s)"
proof -
  have "only_valid_added s (s\<lparr>running := False\<rparr>)"
    by (simp add: only_valid_added_iff)
  then show ?thesis
    unfolding stop_def
    by (auto intro: only_valid_added_trans foldl_saveDeviceData_gate only_valid_added_refl)
qed

lemma isValid_charged_online: "isValid (charged_online dev t)"
  by (simp add: isValid_def charged_online_def)

text \<open>
  C1. Whatever the state of the collector, the storage calls that \<open>saveDeviceData\<close>
  makes, alone, in a pass of the scheduled loop (first save or interval elapsed), in any
  number of passes, or in the flush of \<open>stop\<close>, all carry a record for which \<open>isValid\<close>
  holds: battery charge and status are both present. A record without status never
  reaches the sink.
\<close>

theorem completeness_gate:
  "only_valid_added s (snd (saveDeviceData sink now s device_identifier)) \<and>
   only_valid_added s (scheduledSaveTick sink now s) \<and>
   only_valid_added s (scheduledSaveLoop sink ticks s) \<and>
   only_valid_added s (stop sink now s)"
  by (simp add: saveDeviceData_gate scheduledSaveTick_gate scheduledSaveLoop_gate stop_gate)

theorem completeness_gate_witness:
  "only_valid_added two_devices (stop always_ok (7200 * sec) two_devices) \<and>
   calls_added two_devices (stop always_ok (7200 * sec) two_devices) =
     [(charged_online ''X'' (5 * sec), ''X'')] \<and>
   calls_added two_devices (scheduledSaveTick always_ok (7200 * sec) two_devices) =
     [(charged_online ''X'' (5 * sec), ''X'')] \<and>
   calls_added two_devices (snd (saveDeviceData always_ok (7200 * sec) two_devices ''Y'')) = [] \<and>
   console (stop always_ok (7200 * sec) two_devices) =
     [SavedMetrics ''X'', InvalidDataSkippingSave ''Y'']"
proof -
  have invalid: "\<not> isValid (UpsData_init\<lparr> device_id := ''Y'', timestamp := 6 * sec,
                                            battery_charge := Some 50 \<rparr>)"
    by (simp add: isValid_def UpsData_init_def)
  have flushed:
    "stop always_ok (7200 * sec) two_devices =
       two_devices\<lparr> running := False,
                     last_save_times := [(''X'', 7200 * sec), (''Y'', 0)],
                     last_save_time := 7200 * sec,
                     db_service := \<lparr> insert_calls = [(charged_online ''X'' (5 * sec), ''X'')] \<rparr>,
                     console := [SavedMetrics ''X'', InvalidDataSkippingSave ''Y''] \<rparr>"
    by (simp add: two_devices_def stop_def saveDeviceData_def insertUpsMetrics_def
                  always_ok_def isValid_charged_online invalid Let_def)
  have pass:
    "scheduledSaveTick always_ok (7200 * sec) two_devices =
       two_devices\<lparr> last_save_times := [(''X'', 7200 * sec), (''Y'', 0)],
                     last_save_time := 7200 * sec,
                     db_service := \<lparr> insert_calls = [(charged_online ''X'' (5 * sec), ''X'')] \<rparr>,
                     console := [TriggeringScheduledSave ''X'' 7200, SavedMetrics ''X'',
                                 TriggeringScheduledSave ''Y'' 7200,
                                 InvalidDataSkippingSave ''Y''] \<rparr>"
    by (simp add: two_devices_def scheduledSaveTick_def check_device_def saveDeviceData_def
                  insertUpsMetrics_def always_ok_def isValid_def charged_online_def
                  UpsData_init_def duration_cast_seconds_def sec_def Let_def)
  have skipped:
    "calls_added two_devices (snd (saveDeviceData always_ok (7200 * sec) two_devices ''Y'')) = []"
    by (simp add: two_devices_def saveDeviceData_def calls_added_def invalid)
  have gate: "only_valid_added two_devices (stop always_ok (7200 * sec) two_devices)"
    using completeness_gate [of two_devices always_ok "7200 * sec" "''Y''" "[7200 * sec]"]
    by blast
  have none_before: "insert_calls (db_service two_devices) = []"
    by (simp add: two_devices_def)
  show ?thesis
    using gate skipped
    by (simp add: flushed pass calls_added_def none_before)
qed

subsection \<open>Incoming topics\<close>















text \<open>
  The topics that the client dispatches to the collector. When a configured device
  identifier contains no separator, its pattern has five parts, and a topic matches it only
  with five levels (a final empty level not counted) of which the first two, the third and
  the fifth are \<open>homeassistant\<close>, \<open>sensor\<close>, the identifier (unless it is \<open>+\<close>)
  and \<open>state\<close>.
\<close>

lemma split_part:
  assumes "CHR ''/'' \<notin> set part"
  shows "split (part @ CHR ''/'' # rest) = part # split rest"
  using assms by (induction part) (auto simp: split_Cons)

lemma split_collector_pattern:
  assumes "CHR ''/'' \<notin> set dev_id"
  shows "split (''homeassistant/sensor/'' @ dev_id @ ''/+/state'') =
           [''homeassistant'', ''sensor'', dev_id, ''+'', ''state'']"
proof -
  have last_part: "split ''state'' = [''state'']"
    by code_simp
  have plus: "split (''+'' @ CHR ''/'' # ''state'') = ''+'' # split ''state''"
    by (rule split_part) simp
  have ident: "split (dev_id @ CHR ''/'' # rest) = dev_id # split rest" for rest
    using assms by (rule split_part)
  have sensor: "split (''sensor'' @ CHR ''/'' # rest) = ''sensor'' # split rest" for rest
    by (rule split_part) simp
  have namespace: "split (''homeassistant'' @ CHR ''/'' # rest) = ''homeassistant'' # split rest"
    for rest
    by (rule split_part) simp
  have "split (''homeassistant'' @ CHR ''/'' # (''sensor'' @ CHR ''/'' #
                 (dev_id @ CHR ''/'' # (''+'' @ CHR ''/'' # ''state'')))) =
          [''homeassistant'', ''sensor'', dev_id, ''+'', ''state'']"
    by (simp only: namespace sensor ident plus last_part)
  then show ?thesis
    by simp
qed

lemma dispatched_topic_levels:
  assumes "CHR ''/'' \<notin> set dev_id"
    and "topicMatches topic (''homeassistant/sensor/'' @ dev_id @ ''/+/state'')"
  shows "length (counted_levels topic) = 5 \<and>
         counted_levels topic ! 0 = ''homeassistant'' \<and> counted_levels topic ! 1 = ''sensor'' \<and>
         (dev_id = ''+'' \<or> counted_levels topic ! 2 = dev_id) \<and>
         counted_levels topic ! 4 = ''state''"
proof -
  let ?pattern = "[''homeassistant'', ''sensor'', dev_id, ''+'', ''state'']"
  have parts: "split (''homeassistant/sensor/'' @ dev_id @ ''/+/state'') = ?pattern"
    using assms(1) by (rule split_collector_pattern)
  from assms(2) have "length (split topic) = length ?pattern \<and>
                      match_levels 0 ?pattern (split topic)"
    unfolding topicMatches_def Let_def parts by (simp split: if_splits)
  then have len: "length (split topic) = 5"
    and levels: "\<forall>j < 5. ?pattern ! j = ''+'' \<or> ?pattern ! j = split topic ! j"
    by (simp_all add: match_levels_iff)
  from levels have "?pattern ! 0 = split topic ! 0" "?pattern ! 1 = split topic ! 1"
    "?pattern ! 4 = split topic ! 4"
    by (auto dest: spec [of _ 0] spec [of _ 1] spec [of _ 4])
  moreover from levels have "dev_id = ''+'' \<or> dev_id = split topic ! 2"
    by (auto dest!: spec [of _ 2])
  ultimately show ?thesis
    using len by (auto simp: split_counted_levels)
qed

subsection \<open>Charge and status\<close>










subsection \<open>The first save\<close>

lemma save_times_recorded_iff:
  "save_times_recorded s \<longleftrightarrow> fst ` set (device_data s) \<subseteq> fst ` set (last_save_times s)"
  by (auto simp: save_times_recorded_def list_all_iff map_of_eq_None_iff)

lemma saveDeviceData_device_data [simp]:
  "device_data (snd (saveDeviceData sink now s dev)) = device_data s"
  by (simp add: saveDeviceData_def Let_def split: option.split prod.split)

lemma saveDeviceData_save_times:
  "fst ` set (last_save_times s) \<subseteq> fst ` set (last_save_times (snd (saveDeviceData sink now s dev)))"
  by (auto simp: saveDeviceData_def Let_def keys_map_assign split: option.split prod.split)

lemma saveDeviceData_initial_saves [simp]:
  "initial_saves (console (snd (saveDeviceData sink now s dev)) ) = initial_saves (console s)"
proof -
  have app: "initial_saves (ls @ [l]) = initial_saves ls @ initial_saves [l]" for ls l
    by (induction ls rule: initial_saves.induct) simp_all
  show ?thesis
    by (simp add: saveDeviceData_def Let_def app split: option.split prod.split)
qed

lemma check_device_device_data [simp]:
  "device_data (check_device sink now s dev) = device_data s"
  by (simp add: check_device_def Let_def split: option.split)

lemma check_device_save_times:
  "fst ` set (last_save_times s) \<subseteq> fst ` set (last_save_times (check_device sink now s dev))"
proof -
  have "fst ` set (last_save_times s) \<subseteq>
        fst ` set (last_save_times (snd (saveDeviceData sink now (s\<lparr>console := l\<rparr>) dev)))" for l
    using saveDeviceData_save_times [of "s\<lparr>console := l\<rparr>" sink now dev] by simp
  then show ?thesis
    by (simp add: check_device_def Let_def split: option.split)
qed

lemma check_device_initial_saves:
  assumes "dev \<in> fst ` set (last_save_times s)"
  shows "initial_saves (console (check_device sink now s dev)) = initial_saves (console s)"
proof -
  have app: "initial_saves (ls @ [l]) = initial_saves ls @ initial_saves [l]" for ls l
    by (induction ls rule: initial_saves.induct) simp_all
  from assms obtain t where "map_of (last_save_times s) dev = Some t"
    by (metis map_of_eq_None_iff not_None_eq)
  then show ?thesis
    by (simp add: check_device_def Let_def app)
qed

lemma foldl_check_device_invariants:
  assumes "set devs \<subseteq> fst ` set (last_save_times s)"
  shows "device_data (foldl (check_device sink now) s devs) = device_data s \<and>
         fst ` set (last_save_times s) \<subseteq>
           fst ` set (last_save_times (foldl (check_device sink now) s devs)) \<and>
         initial_saves (console (foldl (check_device sink now) s devs)) =
           initial_saves (console s)"
  using assms
proof (induction devs arbitrary: s)
  case Nil
  show ?case by simp
next
  case (Cons dev devs)
  let ?s = "check_device sink now s dev"
  have sub: "fst ` set (last_save_times s) \<subseteq> fst ` set (last_save_times ?s)"
    by (rule check_device_save_times)
  with Cons.prems have "set devs \<subseteq> fst ` set (last_save_times ?s)"
    by auto
  from Cons.IH [OF this]
  have data: "device_data (foldl (check_device sink now) ?s devs) = device_data ?s"
    and times: "fst ` set (last_save_times ?s) \<subseteq>
                  fst ` set (last_save_times (foldl (check_device sink now) ?s devs))"
    and lines: "initial_saves (console (foldl (check_device sink now) ?s devs)) =
                  initial_saves (console ?s)"
    by simp_all
  have here: "initial_saves (console ?s) = initial_saves (console s)"
    using Cons.prems by (intro check_device_initial_saves) simp
  show ?case
    using data order_trans [OF sub times] lines here by simp
qed

lemma foldl_saveDeviceData_invariants:
  "device_data (foldl (\<lambda>s' dev_id. snd (saveDeviceData sink now s' dev_id)) s devs) =
     device_data s \<and>
   fst ` set (last_save_times s) \<subseteq>
     fst ` set (last_save_times
                  (foldl (\<lambda>s' dev_id. snd (saveDeviceData sink now s' dev_id)) s devs)) \<and>
   initial_saves (console (foldl (\<lambda>s' dev_id. snd (saveDeviceData sink now s' dev_id)) s devs)) =
     initial_saves (console s)"
proof (induction devs arbitrary: s)
  case Nil
  show ?case by simp
next
  case (Cons dev devs)
  from Cons.IH [of "snd (saveDeviceData sink now s dev)"]
       saveDeviceData_save_times [of s sink now dev]
  show ?case
    by auto
qed

lemma onMqttMessage_save_times_recorded:
  assumes "save_times_recorded s"
  shows "save_times_recorded (onMqttMessage L M now s topic payload) \<and>
         initial_saves (console (onMqttMessage L M now s topic payload)) =
           initial_saves (console s)"
proof -
  have app: "initial_saves (ls @ [l]) = initial_saves ls @ initial_saves [l]" for ls l
    by (induction ls rule: initial_saves.induct) simp_all
  have known: "k \<in> fst ` set (last_save_times s)" if "map_of (device_data s) k = Some v" for k v
  proof -
    from that have "(k, v) \<in> set (device_data s)"
      by (rule map_of_SomeD)
    then have "k \<in> fst ` set (device_data s)"
      by force
    with assms show ?thesis
      by (auto simp: save_times_recorded_iff)
  qed
  show ?thesis
    using assms
    by (auto simp: save_times_recorded_iff onMqttMessage_def Let_def keys_map_assign app
             split: prod.split dest: known)
qed

lemma scheduledSaveTick_save_times_recorded:
  assumes "save_times_recorded s"
  shows "save_times_recorded (scheduledSaveTick sink now s) \<and>
         initial_saves (console (scheduledSaveTick sink now s)) = initial_saves (console s)"
proof -
  have "set (map fst (device_data s)) \<subseteq> fst ` set (last_save_times s)"
    using assms by (simp add: save_times_recorded_iff)
  from foldl_check_device_invariants [OF this, of sink now] assms
  show ?thesis
    by (auto simp: scheduledSaveTick_def save_times_recorded_iff)
qed

lemma stop_save_times_recorded:
  assumes "save_times_recorded s"
  shows "save_times_recorded (stop sink now s) \<and>
         initial_saves (console (stop sink now s)) = initial_saves (console s)"
  using assms
        foldl_saveDeviceData_invariants [of sink now "s\<lparr>running := False\<rparr>" "map fst (device_data s)"]
  by (auto simp: stop_def save_times_recorded_iff)

text \<open>
  For a device without last-save time the scheduled loop calls \<open>saveDeviceData\<close> at
  once, whatever the interval.
\<close>

lemma check_device_first_save:
  assumes "map_of (last_save_times s) dev = None"
  shows "check_device sink now s dev =
           snd (saveDeviceData sink now
                  (s\<lparr> console := console s @ [TriggeringInitialSave dev] \<rparr>) dev)"
  using assms by (simp add: check_device_def)

text \<open>
  The first-save branch of the scheduled loop is never taken: \<open>onMqttMessage\<close>, the only
  place where a record is created, gives the new device a last-save time, and no
  operation removes one. Whatever happens to a collector after its construction, every
  buffered device has a last-save time and the line of the first-save branch is never
  written.
\<close>

lemma first_save_branch_unreachable:
  "save_times_recorded (collector_run L M sink interval ops) \<and>
   initial_saves (console (collector_run L M sink interval ops)) = []"
proof (induction ops rule: rev_induct)
  case Nil
  show ?case
    by (simp add: collector_run_def save_times_recorded_def CollectorService_init_def)
next
  case (snoc op ops)
  let ?s = "collector_run L M sink interval ops"
  have step: "collector_run L M sink interval (ops @ [op]) = collector_step L M sink ?s op"
    by (simp add: collector_run_def)
  from snoc have inv: "save_times_recorded ?s" and none: "initial_saves (console ?s) = []"
    by simp_all
  have "save_times_recorded (collector_step L M sink ?s op) \<and>
        initial_saves (console (collector_step L M sink ?s op)) = []"
  proof (cases op)
    case Start
    with inv none show ?thesis
      by (simp add: save_times_recorded_def)
  next
    case (Message now topic payload)
    with onMqttMessage_save_times_recorded [OF inv, of L M now topic payload] none
    show ?thesis by simp
  next
    case (Pass now)
    with scheduledSaveTick_save_times_recorded [OF inv, of sink now] none
    show ?thesis by simp
  next
    case (Stop now)
    with stop_save_times_recorded [OF inv, of sink now] none
    show ?thesis by simp
  qed
  then show ?case
    by (simp only: step)
qed

lemma parseTopic_d1_charge:
  "parseTopic ''homeassistant/sensor/d1/battery_charge/state'' = (''d1'', ''battery_charge'')"
  unfolding parseTopic_def by code_simp

lemma parseTopic_d1_status:
  "parseTopic ''homeassistant/sensor/d1/ups_status/state'' = (''d1'', ''ups_status'')"
  unfolding parseTopic_def by code_simp

lemma parseTopic_d2_charge:
  "parseTopic ''homeassistant/sensor/d2/battery_charge/state'' = (''d2'', ''battery_charge'')"
  unfolding parseTopic_def by code_simp

lemma parseTopic_d2_status:
  "parseTopic ''homeassistant/sensor/d2/ups_status/state'' = (''d2'', ''ups_status'')"
  unfolding parseTopic_def by code_simp

lemma d2_created_eq:
  "d2_created =
     (CollectorService_init 3600)
       \<lparr> device_data := [(''d2'', charged_online ''d2'' 0)],
         last_save_times := [(''d2'', 0)],
         console := [NewDeviceDetected ''d2''] \<rparr>"
  by (simp add: d2_created_def onMqttMessage_def parseTopic_d2_charge parseTopic_d2_status
                getDbIdentifier_def CollectorService_init_def updateFieldFromMqtt_battery_charge
                updateFieldFromMqtt_ups_status parseDouble_digits_100 string_find_OL
                charged_online_def Let_def)

lemma d2_saved_eq:
  "d2_saved =
     (CollectorService_init 3600)
       \<lparr> device_data := [(''d2'', charged_online ''d2'' 0)],
         last_save_times := [(''d2'', 3600 * sec)],
         last_save_time := 3600 * sec,
         db_service := \<lparr> insert_calls = [(charged_online ''d2'' 0, ''d2'')] \<rparr>,
         console := [NewDeviceDetected ''d2'', TriggeringScheduledSave ''d2'' 3600,
                     SavedMetrics ''d2''] \<rparr>"
  by (simp add: d2_saved_def d2_created_eq scheduledSaveTick_def check_device_def
                saveDeviceData_def isValid_charged_online insertUpsMetrics_def always_ok_def
                duration_cast_seconds_def sec_def CollectorService_init_def Let_def)

lemma d1_created_eq:
  "d1_created =
     d2_saved\<lparr> device_data := [(''d1'', charged_online ''d1'' (3610 * sec)),
                                (''d2'', charged_online ''d2'' 0)],
               last_save_times := [(''d1'', 3610 * sec), (''d2'', 3600 * sec)],
               console := console d2_saved @ [NewDeviceDetected ''d1''] \<rparr>"
  by (simp add: d1_created_def d2_saved_eq onMqttMessage_def parseTopic_d1_charge
                parseTopic_d1_status getDbIdentifier_def CollectorService_init_def
                updateFieldFromMqtt_battery_charge updateFieldFromMqtt_ups_status
                parseDouble_digits_100 string_find_OL charged_online_def Let_def sec_def)

text \<open>
  C2. Device \<open>d2\<close> was saved ten seconds ago and device \<open>d1\<close> has just been created,
  with a complete record, in a collector whose interval is 3600 seconds. The creation has
  recorded a last-save time for \<open>d1\<close>, and the pass of the scheduled loop at that moment
  does nothing at all: \<open>d1\<close> is not flushed. Neither is it a minute later, nor 3599
  seconds later (when \<open>d2\<close> is); it is flushed by the first pass that comes 3600 seconds
  after its creation.
\<close>

theorem first_save_waits_full_interval:
  "map_of (device_data d1_created) ''d1'' = Some (charged_online ''d1'' (3610 * sec)) \<and>
   isValid (charged_online ''d1'' (3610 * sec)) \<and>
   map_of (last_save_times d1_created) ''d1'' = Some (3610 * sec) \<and>
   map_of (last_save_times d1_created) ''d2'' = Some (3600 * sec) \<and>
   scheduledSaveTick always_ok (3610 * sec) d1_created = d1_created \<and>
   scheduledSaveTick always_ok (3670 * sec) d1_created = d1_created \<and>
   calls_added d1_created (scheduledSaveTick always_ok (7209 * sec) d1_created) =
     [(charged_online ''d2'' 0, ''d2'')] \<and>
   calls_added d1_created (scheduledSaveTick always_ok (7210 * sec) d1_created) =
     [(charged_online ''d1'' (3610 * sec), ''d1''), (charged_online ''d2'' 0, ''d2'')]"
  by (simp add: d1_created_eq d2_saved_eq scheduledSaveTick_def check_device_def
                saveDeviceData_def isValid_charged_online insertUpsMetrics_def always_ok_def
                calls_added_def duration_cast_seconds_def sec_def CollectorService_init_def
                Let_def)


end
